theory Spec2Isabelle
  imports Complex_Main "HOL-Library.Sublist" "HOL-Library.List_Lexorder"
begin

section \<open>Data model of ITermExtractor/Morph.py\<close>

text \<open>
  A Python \<open>str\<close> is a sequence of Unicode code points, so it is modelled as a list of
  natural numbers. \<open>u\<close> writes an ASCII literal as such a string.
\<close>

type_synonym ustr = "nat list"

definition u :: "string \<Rightarrow> ustr" where
  "u s = map of_char s"

text \<open>The letters U+0451 and U+0435 and the space U+0020.\<close>

definition yo :: nat where
  "yo = 1105"

definition ye :: nat where
  "ye = 1077"

definition sp :: nat where
  "sp = 32"

text \<open>
  Modelled from the spec: the enumerations \<open>PartOfSpeech\<close> and \<open>Case\<close> live in
  ITermExtractor/Structures, which is not among the sources. The functions below use the
  members noun, adjective, verb, adverb and nominative, accusative, none; the remaining
  members stand for the rest of the closed sets.
\<close>

datatype PartOfSpeech = noun | adjective | verb | adverb | pos_none | pos_other nat

datatype Case = nominative | genitive | dative | accusative | instrumental | prepositional
  | case_none

text \<open>The named tuple \<open>TaggedWord(word, pos, case, normalized)\<close>.\<close>

record TaggedWord =
  word :: ustr
  pos :: PartOfSpeech
  case' :: Case
  normalized :: ustr

text \<open>
  \<open>tag_collocation\<close> builds lists that hold tagged words, \<open>Separator(symbol)\<close> values and
  \<open>None\<close>; the functions that receive such lists test their elements with \<open>isinstance\<close>.
\<close>

datatype item = TW TaggedWord | Sep nat | PyNone

text \<open>The exceptions the modelled functions raise.\<close>

datatype error = TypeError | ValueError | IndexError | AttributeError

fun is_tagged :: "item \<Rightarrow> bool" where
  "is_tagged (TW w) = True"
| "is_tagged _ = False"

fun the_tagged :: "item \<Rightarrow> TaggedWord option" where
  "the_tagged (TW w) = Some w"
| "the_tagged _ = None"

section \<open>get_main_word\<close>

text \<open>
  The loop \<open>for w in collocation: if w.pos == noun: result = w.word\<close>: every noun
  overwrites the result.
\<close>

fun noun_loop :: "TaggedWord list \<Rightarrow> ustr \<Rightarrow> ustr" where
  "noun_loop [] result = result"
| "noun_loop (w # ws) result = noun_loop ws (if pos w = noun then word w else result)"

text \<open>
  The loop \<open>for w in collocation: if w.case is nominative or accusative: result = w.word;
  break\<close>.
\<close>

fun case_loop :: "TaggedWord list \<Rightarrow> ustr \<Rightarrow> ustr" where
  "case_loop [] result = result"
| "case_loop (w # ws) result =
     (if case' w = nominative \<or> case' w = accusative then word w else case_loop ws result)"

definition get_main_word :: "item list \<Rightarrow> error + ustr" where
  "get_main_word collocation =
     (let check_list = map is_tagged collocation in
      if length collocation = 0 \<or> \<not> list_all id check_list then Inr []
      else
        let ws = List.map_filter the_tagged collocation;
            ps = map pos ws;
            flag = \<not> (verb \<in> set ps \<and> adverb \<in> set ps)
        in if \<not> flag then Inl ValueError
           else if length ws = 1 \<and> noun \<in> set ps then Inr (word (ws ! 0))
           else
             let nouns = count_list ps noun in
             if nouns = 1 then Inr (noun_loop ws [])
             else
               let result = case_loop ws [] in
               if result = [] then
                 (let nouns = filter (\<lambda>w. pos w = noun) ws in
                  if length nouns \<noteq> 0 then Inr (word (nouns ! 0)) else Inr result)
               else Inr result)"

section \<open>String operations of the Python runtime\<close>

text \<open>
  \<open>str.split()\<close> without an argument splits at runs of white space and yields no empty
  word. The white-space code points are those for which \<open>str.isspace\<close> holds.
\<close>

definition is_space :: "nat \<Rightarrow> bool" where
  "is_space c = ((9 \<le> c \<and> c \<le> 13) \<or> (28 \<le> c \<and> c \<le> 32) \<or> c = 133 \<or> c = 160
     \<or> c = 5760 \<or> (8192 \<le> c \<and> c \<le> 8202) \<or> c = 8232 \<or> c = 8233 \<or> c = 8239
     \<or> c = 8287 \<or> c = 12288)"

fun split_acc :: "ustr \<Rightarrow> ustr \<Rightarrow> ustr list" where
  "split_acc cur [] = (if cur = [] then [] else [cur])"
| "split_acc cur (c # cs) =
     (if is_space c then (if cur = [] then split_acc [] cs else cur # split_acc [] cs)
      else split_acc (cur @ [c]) cs)"

definition split :: "ustr \<Rightarrow> ustr list" where
  "split s = split_acc [] s"

text \<open>
  \<open>str.split(' ')\<close> splits at every single space and keeps empty words, so its result is
  never empty.
\<close>

fun split_on_acc :: "nat \<Rightarrow> ustr \<Rightarrow> ustr \<Rightarrow> ustr list" where
  "split_on_acc d cur [] = [cur]"
| "split_on_acc d cur (c # cs) =
     (if c = d then cur # split_on_acc d [] cs else split_on_acc d (cur @ [c]) cs)"

definition split_on :: "nat \<Rightarrow> ustr \<Rightarrow> ustr list" where
  "split_on d s = split_on_acc d [] s"

text \<open>\<open>' '.join(words)\<close>.\<close>

fun join :: "ustr list \<Rightarrow> ustr" where
  "join [] = []"
| "join [w] = w"
| "join (w # v # ws) = w @ [sp] @ join (v # ws)"

text \<open>The slice \<open>words[j:k]\<close> for \<open>0 \<le> j \<le> k\<close>.\<close>

definition slice :: "'a list \<Rightarrow> nat \<Rightarrow> nat \<Rightarrow> 'a list" where
  "slice xs j k = take (k - j) (drop j xs)"

section \<open>make_substrs\<close>

text \<open>
  The inner loop \<open>for j in range(0, len(words) - wcount + 1)\<close> appends one sub-phrase for
  each start position; \<open>stop\<close> is the bound of the range.
\<close>

function inner_loop :: "ustr list \<Rightarrow> nat \<Rightarrow> nat \<Rightarrow> nat \<Rightarrow> ustr list \<Rightarrow> ustr list" where
  "inner_loop words wcount j stop substrings =
     (if j < stop
      then inner_loop words wcount (j + 1) stop (substrings @ [join (slice words j (j + wcount))])
      else substrings)"
  by pat_completeness auto
termination
  by (relation "measure (\<lambda>(words, wcount, j, stop, substrings). stop - j)") auto

text \<open>
  The outer loop \<open>for wcount in range(len(words) - 1, 1, -1)\<close> counts the length down and
  stops before 1. For an input without words Python starts the range at -1, where it is
  empty; the natural number 0 gives the same empty range.
\<close>

function outer_loop :: "ustr list \<Rightarrow> nat \<Rightarrow> ustr list \<Rightarrow> ustr list" where
  "outer_loop words wcount substrings =
     (if wcount > 1
      then outer_loop words (wcount - 1)
             (inner_loop words wcount 0 (length words - wcount + 1) substrings)
      else substrings)"
  by pat_completeness auto
termination
  by (relation "measure (\<lambda>(words, wcount, substrings). wcount)") auto

text \<open>
  For the empty string the source returns the empty string instead of an empty list; both
  hold no sub-phrase, and the model returns the empty list.
\<close>

definition make_substrs :: "ustr \<Rightarrow> ustr list" where
  "make_substrs collocation =
     (if collocation = [] then []
      else let words = split collocation in outer_loop words (length words - 1) [])"

section \<open>Collaborators outside the repository\<close>

text \<open>
  The functions below call code that is not part of the sources: \<open>helpers.is_correct_word\<close>,
  the constant \<open>non_whitespace_separators\<close> of ITermExtractor/Structures (a string, since it
  is passed to \<open>str.strip\<close>), the morphological analyser pymorphy2 behind \<open>tag_word\<close>
  (which returns a tagged word or \<open>None\<close>), the Unicode table behind \<open>str.lower\<close>, and the
  normalised Damerau-Levenshtein distance of pyxdameraulevenshtein, whose floating-point
  values are taken as real numbers. The model takes them as parameters, collected in one
  record, so every theorem holds for whatever these collaborators compute.

  \<open>tag_word\<close> stands for the function of that name at the inputs where it returns: its
  result is \<open>None\<close> or a tagged word. Where the source function raises instead (the
  \<open>IndexError\<close> of \<open>parts[0]\<close> for a word without a run of the letters it looks for, or an
  exception of the analyser), the model says nothing.
\<close>

record env =
  is_correct_word :: "ustr \<Rightarrow> bool"
  tag_word :: "ustr \<Rightarrow> TaggedWord option"
  non_whitespace_separators :: ustr
  lower :: "ustr \<Rightarrow> ustr"
  distance :: "ustr \<Rightarrow> ustr \<Rightarrow> real"

text \<open>\<open>word.find(sub)\<close>: the first position where \<open>sub\<close> starts, or -1.\<close>

fun find_from :: "ustr \<Rightarrow> ustr \<Rightarrow> int \<Rightarrow> int" where
  "find_from sub [] i = (if sub = [] then i else - 1)"
| "find_from sub (c # cs) i =
     (if take (length sub) (c # cs) = sub then i else find_from sub cs (i + 1))"

definition str_find :: "ustr \<Rightarrow> ustr \<Rightarrow> int" where
  "str_find w sub = find_from sub w 0"

text \<open>\<open>sub in w\<close> for two strings.\<close>

definition contains :: "ustr \<Rightarrow> ustr \<Rightarrow> bool" where
  "contains w sub = (str_find w sub \<noteq> - 1)"

text \<open>\<open>w.strip(chars)\<close>.\<close>

definition strip :: "ustr \<Rightarrow> ustr \<Rightarrow> ustr" where
  "strip w chars =
     rev (dropWhile (\<lambda>c. c \<in> set chars) (rev (dropWhile (\<lambda>c. c \<in> set chars) w)))"

text \<open>A list comprehension whose element may raise stops at the first exception.\<close>

fun map_err :: "('a \<Rightarrow> error + 'b) \<Rightarrow> 'a list \<Rightarrow> error + 'b list" where
  "map_err f [] = Inr []"
| "map_err f (x # xs) =
     (case f x of
        Inl e \<Rightarrow> Inl e
      | Inr y \<Rightarrow> (case map_err f xs of Inl e \<Rightarrow> Inl e | Inr ys \<Rightarrow> Inr (y # ys)))"

section \<open>tag_collocation\<close>

text \<open>
  The body of the loop over the words of a collocation; it returns the list
  \<open>tagged_words\<close> as the iteration leaves it. \<open>sorted\<close> is stable, as \<open>sort_key\<close> is.
\<close>

definition tag_step :: "env \<Rightarrow> ustr \<Rightarrow> item list \<Rightarrow> item list" where
  "tag_step env w tagged_words =
     (let seps = non_whitespace_separators env;
          existing_separators =
            sort_key snd (map (\<lambda>s. (s, str_find w [s])) (filter (\<lambda>s. s \<in> set w) seps))
      in if length existing_separators > 0 then
           (let separatorless_word = strip w seps;
                word_position = str_find w separatorless_word;
                tagged_word = tag_word env separatorless_word;
                preceding_separators =
                  map (\<lambda>s. Sep (fst s)) (filter (\<lambda>s. snd s < word_position) existing_separators);
                following_separators =
                  map (\<lambda>s. Sep (fst s)) (filter (\<lambda>s. snd s > word_position) existing_separators)
            in if length preceding_separators \<noteq> 0 \<and> length following_separators \<noteq> 0
                  \<and> tagged_word = None
               then tagged_words
               else tagged_words @ preceding_separators
                      @ [case tagged_word of None \<Rightarrow> PyNone | Some t \<Rightarrow> TW t]
                      @ following_separators)
         else (case tag_word env w of
                 None \<Rightarrow> tagged_words
               | Some t \<Rightarrow> tagged_words @ [TW t]))"

fun tag_loop :: "env \<Rightarrow> ustr list \<Rightarrow> item list \<Rightarrow> item list" where
  "tag_loop env [] tagged_words = tagged_words"
| "tag_loop env (w # ws) tagged_words = tag_loop env ws (tag_step env w tagged_words)"

definition tag_collocation :: "env \<Rightarrow> ustr \<Rightarrow> item list" where
  "tag_collocation env collocation = tag_loop env (split collocation) []"

section \<open>is_identical_word\<close>

text \<open>
  The two arguments are strings or tagged words. \<open>xs[0]\<close> raises IndexError on an empty
  list; the attributes \<open>normalized\<close> and \<open>word\<close> exist on tagged words only.
\<close>

datatype word_arg = Str ustr | Tagged TaggedWord

definition first_item :: "item list \<Rightarrow> error + item" where
  "first_item xs = (case xs of [] \<Rightarrow> Inl IndexError | x # _ \<Rightarrow> Inr x)"

fun item_normalized :: "item \<Rightarrow> error + ustr" where
  "item_normalized (TW t) = Inr (normalized t)"
| "item_normalized _ = Inl AttributeError"

fun item_word :: "item \<Rightarrow> error + ustr" where
  "item_word (TW t) = Inr (word t)"
| "item_word _ = Inl AttributeError"

definition is_identical_word :: "env \<Rightarrow> word_arg \<Rightarrow> word_arg \<Rightarrow> error + bool" where
  "is_identical_word env word1 word2 =
     (case (word1, word2) of
        (Str s1, Str s2) \<Rightarrow>
          if s1 = [] \<or> s2 = [] then Inr False
          else if count_list s1 sp \<ge> 1 \<or> count_list s2 sp \<ge> 1 then Inl ValueError
          else if \<not> (is_correct_word env s1 \<and> is_correct_word env s2) then Inl ValueError
          else
            let l1 = lower env s1; l2 = lower env s2 in
            if l1 = l2 then Inr True
            else
              (case first_item (tag_collocation env l1) of
                 Inl e \<Rightarrow> Inl e
               | Inr word1_parse_info \<Rightarrow>
              (case first_item (tag_collocation env l2) of
                 Inl e \<Rightarrow> Inl e
               | Inr word2_parse_info \<Rightarrow>
              (case item_normalized word1_parse_info of
                 Inl e \<Rightarrow> Inl e
               | Inr n1 \<Rightarrow>
              (case item_normalized word2_parse_info of
                 Inl e \<Rightarrow> Inl e
               | Inr n2 \<Rightarrow> Inr (n1 = n2)))))
      | (Tagged t1, Tagged t2) \<Rightarrow>
          if t1 = t2 then Inr True else Inr (normalized t1 = normalized t2)
      | _ \<Rightarrow> Inl TypeError)"

section \<open>is_identical_collocation and is_identical_collocation_q\<close>

text \<open>
  The loop \<open>for i in range(0, len(collocation1_tagged))\<close> of the validating comparator
  reads both lists at the same index, so it walks them together; the second list running
  out is the IndexError of \<open>collocation2_tagged[i]\<close>.
\<close>

fun word_loop :: "env \<Rightarrow> item list \<Rightarrow> item list \<Rightarrow> error + bool" where
  "word_loop env [] ys = Inr True"
| "word_loop env (x # xs) ys =
     (case item_word x of
        Inl e \<Rightarrow> Inl e
      | Inr w1 \<Rightarrow>
     (case first_item ys of
        Inl e \<Rightarrow> Inl e
      | Inr y \<Rightarrow>
     (case item_word y of
        Inl e \<Rightarrow> Inl e
      | Inr w2 \<Rightarrow>
     (case is_identical_word env (Str w1) (Str w2) of
        Inl e \<Rightarrow> Inl e
      | Inr is_identical \<Rightarrow> if \<not> is_identical then Inr False else word_loop env xs (tl ys)))))"

definition is_identical_collocation :: "env \<Rightarrow> ustr \<Rightarrow> ustr \<Rightarrow> error + bool" where
  "is_identical_collocation env collocation1 collocation2 =
     (let words_coll1 = split collocation1; words_coll2 = split collocation2 in
      if length words_coll1 \<le> 1 \<or> length words_coll2 \<le> 1 then Inl ValueError
      else
        let val_check = map (is_correct_word env) (words_coll1 @ words_coll2) in
        if False \<in> set val_check then Inl ValueError
        else if collocation1 = collocation2 then Inr True
        else if length words_coll1 \<noteq> length words_coll2 then Inr False
        else
          let collocation1_tagged = tag_collocation env collocation1;
              collocation2_tagged = tag_collocation env collocation2
          in (case get_main_word collocation1_tagged of
                Inl e \<Rightarrow> Inl e
              | Inr main_word_1 \<Rightarrow>
             (case get_main_word collocation2_tagged of
                Inl e \<Rightarrow> Inl e
              | Inr main_word_2 \<Rightarrow>
             (case is_identical_word env (Str main_word_1) (Str main_word_2) of
                Inl e \<Rightarrow> Inl e
              | Inr same \<Rightarrow>
                  if \<not> same then Inr False
                  else word_loop env collocation1_tagged collocation2_tagged))))"

text \<open>The loop of the fast comparator compares the lemmas at each index.\<close>

fun normalized_loop :: "item list \<Rightarrow> item list \<Rightarrow> error + bool" where
  "normalized_loop [] ys = Inr True"
| "normalized_loop (x # xs) ys =
     (case item_normalized x of
        Inl e \<Rightarrow> Inl e
      | Inr n1 \<Rightarrow>
     (case first_item ys of
        Inl e \<Rightarrow> Inl e
      | Inr y \<Rightarrow>
     (case item_normalized y of
        Inl e \<Rightarrow> Inl e
      | Inr n2 \<Rightarrow> if \<not> (n1 = n2) then Inr False else normalized_loop xs (tl ys))))"

text \<open>
  \<open>try: comparison_result = is_identical_word(...) except ValueError: pass\<close> leaves
  \<open>comparison_result\<close> at \<open>False\<close>; any other exception passes through.
\<close>

definition head_comparison :: "env \<Rightarrow> ustr \<Rightarrow> ustr \<Rightarrow> error + bool" where
  "head_comparison env main_word_1 main_word_2 =
     (case is_identical_word env (Str main_word_1) (Str main_word_2) of
        Inl e \<Rightarrow> if e = ValueError then Inr False else Inl e
      | Inr r \<Rightarrow> Inr r)"

definition is_identical_collocation_q :: "env \<Rightarrow> item list \<Rightarrow> item list \<Rightarrow> error + bool" where
  "is_identical_collocation_q env collocation1 collocation2 =
     (if length collocation1 < 1 \<or> length collocation2 < 1 then Inl ValueError
      else if collocation1 = collocation2 then Inr True
      else if length collocation1 \<noteq> length collocation2 then Inr False
      else
        (case get_main_word collocation1 of
           Inl e \<Rightarrow> Inl e
         | Inr main_word_1 \<Rightarrow>
        (case get_main_word collocation2 of
           Inl e \<Rightarrow> Inl e
         | Inr main_word_2 \<Rightarrow>
        (case head_comparison env main_word_1 main_word_2 of
           Inl e \<Rightarrow> Inl e
         | Inr comparison_result \<Rightarrow>
             if \<not> comparison_result then Inr False
             else normalized_loop collocation1 collocation2))))"

section \<open>binary_identity_check\<close>

text \<open>
  The recursion halves the list and has a base case for one element only, so it is
  defined as a partial function: \<open>None\<close> is a recursion that never reaches a base case,
  \<open>Some (Inl e)\<close> an exception of a comparison, \<open>Some (Inr r)\<close> the returned list.
\<close>

partial_function (option) binary_identity_check ::
  "env \<Rightarrow> item list \<Rightarrow> (int \<times> item list) list \<Rightarrow> (error + (int \<times> bool) list) option" where
  "binary_identity_check env collocation collocation_list =
     (if length collocation_list = 1 then
        (let tmp = collocation_list ! 0 in
         Some (case is_identical_collocation_q env collocation (snd tmp) of
                 Inl e \<Rightarrow> Inl e
               | Inr b \<Rightarrow> Inr [(fst tmp, b)]))
      else
        (let middle_index = length collocation_list div 2;
             first_half = take middle_index collocation_list;
             second_half = drop middle_index collocation_list
         in Option.bind (binary_identity_check env collocation first_half) (\<lambda>first.
              case first of
                Inl e \<Rightarrow> Some (Inl e)
              | Inr first_result \<Rightarrow>
                  Option.bind (binary_identity_check env collocation second_half) (\<lambda>second.
                    case second of
                      Inl e \<Rightarrow> Some (Inl e)
                    | Inr second_result \<Rightarrow> Some (Inr ([] @ first_result @ second_result))))))"

text \<open>
  The direct scan of the specification: the fast comparator applied to each element in
  input order, the first exception ending the scan.
\<close>

definition direct_scan :: "env \<Rightarrow> item list \<Rightarrow> (int \<times> item list) list \<Rightarrow> error + (int \<times> bool) list"
  where
  "direct_scan env collocation collocation_list =
     map_err (\<lambda>coll. case is_identical_collocation_q env collocation (snd coll) of
                        Inl e \<Rightarrow> Inl e
                      | Inr b \<Rightarrow> Inr (fst coll, b)) collocation_list"

section \<open>in_collocation_list_var\<close>

text \<open>\<open>identity_check.index(True)\<close>, called only when \<open>True\<close> is in the list.\<close>

fun index_of :: "'a \<Rightarrow> 'a list \<Rightarrow> int" where
  "index_of x [] = 0"
| "index_of x (y # ys) = (if x = y then 0 else 1 + index_of x ys)"

text \<open>
  The function sorts the list it was given, so the model returns the list as the call
  leaves it together with the returned pair; \<open>None\<close> is Python's \<open>None\<close>. Python
  compares strings by code point, as the lexicographic order on lists does.
\<close>

definition in_collocation_list_var ::
  "env \<Rightarrow> ustr \<Rightarrow> ustr list \<Rightarrow> error + ((bool \<times> ustr option) \<times> ustr list)" where
  "in_collocation_list_var env collocation collocation_list =
     (let words_coll = split collocation in
      if length collocation_list = 0 then Inr ((False, None), collocation_list)
      else
        let val_check = map (is_correct_word env) words_coll;
            val_check_coll =
              map (\<lambda>coll. False \<notin> set (map (is_correct_word env) (split coll))) collocation_list
        in if False \<in> set val_check \<or> False \<in> set val_check_coll then Inl ValueError
           else
             let flag = (collocation \<in> set collocation_list);
                 found_index = - 1;
                 sorted_list = sort collocation_list
             in if \<not> flag then
                  (case map_err (is_identical_collocation env collocation) sorted_list of
                     Inl e \<Rightarrow> Inl e
                   | Inr identity_check \<Rightarrow>
                       let flag = (True \<in> set identity_check);
                           found_index = (if flag then index_of True identity_check else found_index)
                       in Inr ((flag, if found_index > - 1
                                      then Some (sorted_list ! nat found_index) else None),
                               sorted_list))
                else Inr ((flag, if found_index > - 1
                                 then Some (sorted_list ! nat found_index) else None),
                          sorted_list))"

section \<open>get_collocation_normal_form\<close>

text \<open>
  Modelled from the spec: the class \<open>Collocation\<close> of ITermExtractor/Structures is not among
  the sources; its fields are those the sources read and the constructor call in
  \<open>replace_main_word\<close> lists (\<open>id\<close> is named \<open>cid\<close> here). A parameter that has the name
  of a field is written with a prime below.
\<close>

record Collocation =
  collocation :: ustr
  wordcount :: int
  freq :: int
  pnormal_form :: ustr
  llinked :: "int list"
  cid :: int

definition DIST_THRESHOLD :: real where
  "DIST_THRESHOLD = 15 / 100"

text \<open>\<open>str.replace\<close> of the letter U+0451 by U+0435: one code point for another.\<close>

definition replace_yo :: "ustr \<Rightarrow> ustr" where
  "replace_yo s = map (\<lambda>c. if c = yo then ye else c) s"

definition replace_yo_coll :: "Collocation \<Rightarrow> Collocation" where
  "replace_yo_coll c = c\<lparr>collocation := replace_yo (collocation c)\<rparr>"

text \<open>
  The part of the function after the orthographic normalisation: distances, the filter
  on threshold and head word, the stable sort and the choice of the first index. The
  threshold test is the one of real arithmetic; the rounding of the floating-point
  subtraction and of the constant 0.15 is not modelled, so for a difference at the very
  threshold the source may decide the other way.
\<close>

definition select_index :: "env \<Rightarrow> ustr \<Rightarrow> Collocation list \<Rightarrow> ustr \<Rightarrow> int" where
  "select_index env pnormal_form' collocations main_word =
     (let forms = map collocation collocations;
          distances = map (distance env pnormal_form') forms;
          indices = filter (\<lambda>(i, e). e - min_list distances \<le> DIST_THRESHOLD
                              \<and> contains (collocation (collocations ! nat i)) main_word)
                      (zip (map int [0 ..< length distances]) distances);
          indices = (if length indices > 1 then sort_key snd indices else indices)
      in if length indices > 0 then fst (indices ! 0) else - 1)"

text \<open>
  The candidates are mutated in place, so the model returns them with the index.
\<close>

definition get_collocation_normal_form ::
  "env \<Rightarrow> ustr \<Rightarrow> Collocation list \<Rightarrow> ustr \<Rightarrow> int \<times> Collocation list" where
  "get_collocation_normal_form env pnormal_form' collocations main_word =
     (if yo \<in> set (lower env pnormal_form')
      then
        (let main_word = replace_yo main_word;
             pnormal_form' = replace_yo pnormal_form';
             collocations = map replace_yo_coll collocations
         in (select_index env pnormal_form' collocations main_word, collocations))
      else (select_index env pnormal_form' collocations main_word, collocations))"

section \<open>assign_tags and get_longer_terms\<close>

text \<open>The phrase is a string or a \<open>Collocation\<close>; its words are those of \<open>split(' ')\<close>.\<close>

datatype phrase = PStr ustr | PColl Collocation

definition raw_words_of :: "phrase \<Rightarrow> ustr list" where
  "raw_words_of phrase =
     (case phrase of PStr s \<Rightarrow> split_on sp s | PColl c \<Rightarrow> split_on sp (collocation c))"

definition assign_tags :: "phrase \<Rightarrow> TaggedWord list \<Rightarrow> TaggedWord list" where
  "assign_tags phrase dictionary =
     (let raw_words = raw_words_of phrase
      in filter (\<lambda>w. word w \<in> set raw_words) dictionary)"

text \<open>
  The comparisons of one longer candidate: the list comprehension inside \<open>try\<close>, over the
  sub-phrases that have as many words as the line.
\<close>

definition id_check :: "env \<Rightarrow> Collocation \<Rightarrow> TaggedWord list \<Rightarrow> Collocation \<Rightarrow> error + bool list"
  where
  "id_check env line dictionary gram =
     (let tagged_line = assign_tags (PColl line) dictionary;
          possible_identic_lines =
            filter (\<lambda>substr. int (length (split_on sp substr)) = wordcount line)
              (make_substrs (collocation gram));
          tagged_possible_identic_lines =
            map (\<lambda>l. assign_tags (PStr l) dictionary) possible_identic_lines
      in map_err (\<lambda>l. is_identical_collocation_q env (map TW tagged_line) (map TW l))
           tagged_possible_identic_lines)"

text \<open>
  The loop over the longer candidates: \<open>except Exception: continue\<close> skips the candidate
  whose comparisons raised.
\<close>

fun gram_loop ::
  "env \<Rightarrow> Collocation \<Rightarrow> TaggedWord list \<Rightarrow> Collocation list \<Rightarrow> Collocation list
    \<Rightarrow> Collocation list" where
  "gram_loop env line dictionary [] longer_terms = longer_terms"
| "gram_loop env line dictionary (gram # grams) longer_terms =
     (case id_check env line dictionary gram of
        Inl e \<Rightarrow> gram_loop env line dictionary grams longer_terms
      | Inr checks \<Rightarrow>
          gram_loop env line dictionary grams
            (if True \<in> set checks then longer_terms @ [gram] else longer_terms))"

definition get_longer_terms ::
  "env \<Rightarrow> Collocation \<Rightarrow> Collocation list \<Rightarrow> TaggedWord list \<Rightarrow> Collocation list" where
  "get_longer_terms env line longer_grams dictionary = gram_loop env line dictionary longer_grams []"

section \<open>Notions used to state the properties\<close>



text \<open>
  A small instance of the collaborators, for evaluating the model on concrete inputs:
  words are non-empty runs of Latin or Cyrillic letters and hyphens, every word is tagged
  as a noun that is its own lemma, and the distance is 0 between equal strings and 1
  otherwise.
\<close>

definition is_letter :: "nat \<Rightarrow> bool" where
  "is_letter c = ((65 \<le> c \<and> c \<le> 90) \<or> (97 \<le> c \<and> c \<le> 122) \<or> (1040 \<le> c \<and> c \<le> 1103)
     \<or> c = 1025 \<or> c = 1105)"

definition sample_env :: env where
  "sample_env =
     \<lparr>is_correct_word = (\<lambda>w. w \<noteq> [] \<and> list_all (\<lambda>c. is_letter c \<or> c = 45) w),
      tag_word = (\<lambda>w. if w = [] then None
                       else Some \<lparr>word = w, pos = noun, case' = case_none, normalized = w\<rparr>),
      non_whitespace_separators = u '',.;:'',
      lower = map (\<lambda>c. if 65 \<le> c \<and> c \<le> 90 then c + 32 else c),
      distance = (\<lambda>a b. if a = b then 0 else 1)\<rparr>"

text \<open>Tagged words for the examples.\<close>

definition w_ogon :: TaggedWord where
  "w_ogon = \<lparr>word = u ''ogon'', pos = noun, case' = nominative, normalized = u ''ogon''\<rparr>"

definition w_ognya :: TaggedWord where
  "w_ognya = \<lparr>word = u ''ognya'', pos = noun, case' = genitive, normalized = u ''ogon''\<rparr>"

definition w_art :: TaggedWord where
  "w_art = \<lparr>word = u ''artillerii'', pos = noun, case' = genitive, normalized = u ''artilleriya''\<rparr>"

definition w_vyzov :: TaggedWord where
  "w_vyzov = \<lparr>word = u ''vyzov'', pos = noun, case' = nominative, normalized = u ''vyzov''\<rparr>"

definition w_ogon1 :: TaggedWord where
  "w_ogon1 = \<lparr>word = u ''ogon1'', pos = noun, case' = nominative, normalized = u ''ogon''\<rparr>"

definition w_ogon2 :: TaggedWord where
  "w_ogon2 = \<lparr>word = u ''ogon2'', pos = noun, case' = nominative, normalized = u ''ogon''\<rparr>"

text \<open>Candidates and the words U+0451-lka and U+0435-lka for the examples.\<close>

definition mk_coll :: "ustr \<Rightarrow> int \<Rightarrow> Collocation" where
  "mk_coll s n = \<lparr>collocation = s, wordcount = n, freq = 1, pnormal_form = [], llinked = [], cid = 0\<rparr>"

definition yolka :: ustr where
  "yolka = [1105, 1083, 1082, 1072]"

definition elka :: ustr where
  "elka = [1077, 1083, 1082, 1072]"

section \<open>Properties of get_main_word\<close>








section \<open>Properties of make_substrs\<close>

lemma inner_loop_eq:
  "inner_loop words wcount j stop acc =
     acc @ map (\<lambda>i. join (slice words i (i + wcount))) [j ..< stop]"
proof (induction words wcount j stop acc rule: inner_loop.induct)
  case (1 words wcount j stop substrings)
  show ?case
  proof (cases "j < stop")
    case True
    with "1" show ?thesis
      by (subst inner_loop.simps) (simp add: upt_conv_Cons)
  next
    case False
    then show ?thesis
      by (subst inner_loop.simps) simp
  qed
qed

lemma outer_loop_eq:
  "outer_loop words wcount acc =
     acc @ concat (map (\<lambda>k. map (\<lambda>i. join (slice words i (i + k))) [0 ..< length words - k + 1])
                     (rev [2 ..< wcount + 1]))"
proof (induction words wcount acc rule: outer_loop.induct)
  case (1 words wcount substrings)
  show ?case
  proof (cases "wcount > 1")
    case True
    then have w: "wcount - 1 + 1 = wcount"
      by simp
    from True have r: "[2 ..< wcount + 1] = [2 ..< wcount] @ [wcount]"
      by simp
    have "outer_loop words wcount substrings =
        outer_loop words (wcount - 1)
          (inner_loop words wcount 0 (length words - wcount + 1) substrings)"
      using True by (subst outer_loop.simps) simp
    also have "\<dots> = inner_loop words wcount 0 (length words - wcount + 1) substrings @
        concat (map (\<lambda>k. map (\<lambda>i. join (slice words i (i + k))) [0 ..< length words - k + 1])
                 (rev [2 ..< wcount]))"
      using "1" [OF True] unfolding w .
    finally show ?thesis
      unfolding r inner_loop_eq by simp
  next
    case False
    then show ?thesis
      by (subst outer_loop.simps) simp
  qed
qed

text \<open>
  Claim C4. The result of \<open>make_substrs\<close> is, for the lengths \<open>n - 1\<close> down to 2 in this
  order, the sub-phrases of that length at the start positions from left to right: all
  contiguous sub-phrases of 2 to \<open>n - 1\<close> words, so neither the full phrase nor a single
  word. An input of at most one word, the empty string included, gives the empty result.
\<close>

theorem make_substrs_enumerates:
  "make_substrs s =
     concat (map (\<lambda>k. map (\<lambda>j. join (slice (split s) j (j + k))) [0 ..< length (split s) - k + 1])
               (rev [2 ..< length (split s)]))
   \<and> (length (split s) \<le> 1 \<longrightarrow> make_substrs s = [])"
proof -
  have sp: "split [] = []" by (simp add: split_def)
  have eq: "make_substrs s =
     concat (map (\<lambda>k. map (\<lambda>j. join (slice (split s) j (j + k))) [0 ..< length (split s) - k + 1])
               (rev [2 ..< length (split s)]))"
  proof (cases "length (split s) = 0")
    case True
    then have "outer_loop (split s) (length (split s) - 1) [] = []"
      by (subst outer_loop.simps) simp
    with True show ?thesis by (simp add: make_substrs_def Let_def)
  next
    case False
    then have ne: "s \<noteq> []" using sp by auto
    from False have n: "length (split s) - 1 + 1 = length (split s)" by simp
    have "make_substrs s = outer_loop (split s) (length (split s) - 1) []"
      using ne by (simp add: make_substrs_def Let_def)
    also have "\<dots> = [] @ concat (map (\<lambda>k. map (\<lambda>j. join (slice (split s) j (j + k)))
          [0 ..< length (split s) - k + 1]) (rev [2 ..< length (split s) - 1 + 1]))"
      by (rule outer_loop_eq)
    finally show ?thesis unfolding n by simp
  qed
  have emp: "length (split s) \<le> 1 \<longrightarrow> make_substrs s = []"
  proof
    assume "length (split s) \<le> 1"
    then have "[2 ..< length (split s)] = []" by simp
    with eq show "make_substrs s = []" by simp
  qed
  from eq emp show ?thesis by (rule conjI)
qed

theorem make_substrs_enumerates_witness:
  "make_substrs (u ''a'') = [] \<and> make_substrs [] = []
   \<and> make_substrs (u ''ab cd ef gh'')
     = [u ''ab cd ef'', u ''cd ef gh'', u ''ab cd'', u ''cd ef'', u ''ef gh'']"
proof -
  have w: "split (u ''a'') = [u ''a'']"
    by (simp add: split_def u_def is_space_def)
  have e: "split [] = []"
    by (simp add: split_def)
  have f: "split (u ''ab cd ef gh'') = [u ''ab'', u ''cd'', u ''ef'', u ''gh'']"
    by (simp add: split_def u_def is_space_def)
  have r: "rev [2 ..< 4] = [3, 2::nat]" "[0 ..< 2] = [0, 1::nat]" "[0 ..< 3] = [0, 1, 2::nat]"
    by (simp_all add: upt_rec)
  show ?thesis
    using make_substrs_enumerates [of "u ''a''"] make_substrs_enumerates [of "[]"]
      make_substrs_enumerates [of "u ''ab cd ef gh''"]
    unfolding w e f
    by (simp add: r slice_def) (simp add: u_def sp_def)
qed

section \<open>Properties of binary_identity_check\<close>

lemma map_err_append:
  "map_err f (xs @ ys) =
     (case map_err f xs of
        Inl e \<Rightarrow> Inl e
      | Inr a \<Rightarrow> (case map_err f ys of Inl e \<Rightarrow> Inl e | Inr b \<Rightarrow> Inr (a @ b)))"
  by (induction xs) (simp_all split: sum.splits)

lemma binary_identity_check_Some_nonempty:
  assumes a: "binary_identity_check env c cl = Some y"
  shows "cl \<noteq> []"
  apply (rule binary_identity_check.raw_induct [where P = "\<lambda>_ _ cl _. cl \<noteq> []", OF _ a])
  subgoal premises prems for f env c cl y
  proof
    assume "cl = []"
    with prems(2) obtain z where "f env c [] = Some z"
      by (auto simp add: Let_def Option.bind_eq_Some_conv)
    from prems(1) [OF this] show False by simp
  qed
  done

text \<open>
  Claim C8, at the empty list. The only base case is a list of one element; the empty
  list is split into two empty halves, so the recursion on it never reaches a base case
  and the function does not return.
\<close>

theorem binary_identity_check_empty_diverges:
  "binary_identity_check env query [] = None"
proof (cases "binary_identity_check env query []")
  case None
  then show ?thesis .
next
  case (Some y)
  from binary_identity_check_Some_nonempty [OF this] show ?thesis by simp
qed

text \<open>
  Claim C2. On every non-empty indexed candidate list the recursion returns, and what it
  returns is the result of the direct scan: the pairs of index and comparison result in
  input order, or the first exception a comparison raises.
\<close>

theorem binary_identity_check_is_direct_scan:
  "candidates \<noteq> [] \<Longrightarrow>
   binary_identity_check env query candidates
     = Some (direct_scan env query candidates)"
proof (induction "length candidates" arbitrary: candidates rule: less_induct)
  case less
  show ?case
  proof (cases "length candidates = 1")
    case True
    then obtain x where x: "candidates = [x]"
      by (cases candidates) auto
    show ?thesis
      unfolding x
      by (subst binary_identity_check.simps) (simp add: direct_scan_def split: sum.splits)
  next
    case False
    define m where "m = length candidates div 2"
    from less.prems have "length candidates \<noteq> 0"
      by simp
    with False have len: "2 \<le> length candidates"
      by arith
    then have m: "0 < m" "m < length candidates"
      by (simp_all add: m_def)
    have h1: "binary_identity_check env query (take m candidates)
        = Some (direct_scan env query (take m candidates))"
      using m by (intro less.hyps) auto
    have h2: "binary_identity_check env query (drop m candidates)
        = Some (direct_scan env query (drop m candidates))"
      using m by (intro less.hyps) auto
    have split: "direct_scan env query candidates =
        (case direct_scan env query (take m candidates) of
           Inl e \<Rightarrow> Inl e
         | Inr a \<Rightarrow> (case direct_scan env query (drop m candidates) of
                      Inl e \<Rightarrow> Inl e | Inr b \<Rightarrow> Inr (a @ b)))"
      unfolding direct_scan_def map_err_append [symmetric] by simp
    show ?thesis
      using False
      by (subst binary_identity_check.simps)
        (simp add: Let_def m_def [symmetric] h1 h2 split split: sum.splits)
  qed
qed

theorem binary_identity_check_is_direct_scan_witness:
  "binary_identity_check sample_env [TW w_ogon, TW w_art]
     [(0, [TW w_ogon, TW w_art]), (1, [TW w_vyzov, TW w_ognya, TW w_art]), (2, [TW w_vyzov, TW w_art])]
   = Some (Inr [(0, True), (1, False), (2, False)])"
  using binary_identity_check_is_direct_scan [of
     "[(0, [TW w_ogon, TW w_art]), (1, [TW w_vyzov, TW w_ognya, TW w_art]), (2, [TW w_vyzov, TW w_art])]"
     sample_env "[TW w_ogon, TW w_art]"]
  by (simp add: direct_scan_def is_identical_collocation_q_def get_main_word_def
      head_comparison_def is_identical_word_def sample_env_def w_ogon_def w_art_def w_vyzov_def
      w_ognya_def u_def sp_def is_letter_def Let_def tag_collocation_def split_def is_space_def
      tag_step_def first_item_def)

section \<open>Properties of is_identical_word\<close>

lemma first_item_error: "first_item xs = Inl e \<Longrightarrow> e = IndexError"
  by (cases xs) (simp_all add: first_item_def)

lemma item_normalized_error: "item_normalized x = Inl e \<Longrightarrow> e = AttributeError"
  by (cases x) simp_all

text \<open>
  Claim C9. A non-empty word without a space that \<open>is_correct_word\<close> accepts is identical
  to itself, and the comparator gives the same outcome for \<open>(a, b)\<close> and \<open>(b, a)\<close>: the same
  truth value, or the same exception. The symmetry holds for all arguments, strings and
  tagged words alike.
\<close>

theorem is_identical_word_reflexive_symmetric:
  "(w \<noteq> [] \<and> sp \<notin> set w \<and> is_correct_word env w
      \<longrightarrow> is_identical_word env (Str w) (Str w) = Inr True)
   \<and> is_identical_word env x y = is_identical_word env y x"
proof -
  have sym: "is_identical_word env x y = is_identical_word env y x"
  proof (cases x)
    case (Str a)
    note x = this
    show ?thesis
    proof (cases y)
      case (Str b)
      show ?thesis
        unfolding x Str is_identical_word_def
        by (auto simp add: Let_def split: sum.splits
            dest!: first_item_error item_normalized_error)
    next
      case (Tagged t)
      with x show ?thesis by (simp add: is_identical_word_def)
    qed
  next
    case (Tagged s)
    note x = this
    show ?thesis
    proof (cases y)
      case (Str b)
      with x show ?thesis by (simp add: is_identical_word_def)
    next
      case (Tagged t)
      with x show ?thesis by (auto simp add: is_identical_word_def)
    qed
  qed
  have refl: "w \<noteq> [] \<and> sp \<notin> set w \<and> is_correct_word env w
      \<longrightarrow> is_identical_word env (Str w) (Str w) = Inr True"
    by (simp add: is_identical_word_def count_list_0_iff)
  from refl sym show ?thesis by (rule conjI)
qed

theorem is_identical_word_reflexive_symmetric_witness:
  "is_identical_word sample_env (Str (u ''ogon'')) (Str (u ''ogon'')) = Inr True
   \<and> is_identical_word sample_env (Str (u ''ogon'')) (Str (u ''ognya'')) = Inr False
   \<and> is_identical_word sample_env (Str (u ''ognya'')) (Str (u ''ogon'')) = Inr False"
proof -
  have v: "u ''ogon'' \<noteq> [] \<and> sp \<notin> set (u ''ogon'') \<and> is_correct_word sample_env (u ''ogon'')"
    by (simp add: u_def sp_def sample_env_def is_letter_def)
  have f: "is_identical_word sample_env (Str (u ''ogon'')) (Str (u ''ognya'')) = Inr False"
    by (simp add: is_identical_word_def sample_env_def u_def sp_def is_letter_def Let_def
        tag_collocation_def split_def is_space_def tag_step_def first_item_def)
  show ?thesis
    using is_identical_word_reflexive_symmetric
        [where w = "u ''ogon''" and env = sample_env and x = "Str (u ''ogon'')"
           and y = "Str (u ''ognya'')"] v f
    by simp
qed

section \<open>Properties of is_identical_collocation_q\<close>

text \<open>
  Claim C5, as the code has it. The fast comparator fails with a value error when one of
  its inputs has no element; an input of a single element passes this check (a non-empty
  input compared with itself is identical), unlike the validating comparator, which wants
  two words. A value error raised by the comparison of the two head words is swallowed
  and the result is "not identical".
\<close>

theorem is_identical_collocation_q_checks:
  "(ca = [] \<or> cb = [] \<longrightarrow> is_identical_collocation_q env ca cb = Inl ValueError)
   \<and> (ca \<noteq> [] \<longrightarrow> is_identical_collocation_q env ca ca = Inr True)
   \<and> (ca \<noteq> [] \<and> cb \<noteq> [] \<and> ca \<noteq> cb \<and> length ca = length cb
        \<and> get_main_word ca = Inr ma \<and> get_main_word cb = Inr mb
        \<and> is_identical_word env (Str ma) (Str mb) = Inl ValueError
      \<longrightarrow> is_identical_collocation_q env ca cb = Inr False)"
  by (auto simp add: is_identical_collocation_q_def head_comparison_def)

theorem is_identical_collocation_q_checks_witness:
  "is_identical_collocation_q sample_env [] [TW w_ogon] = Inl ValueError
   \<and> is_identical_collocation_q sample_env [TW w_ogon1] [TW w_ogon1] = Inr True
   \<and> is_identical_word sample_env (Str (u ''ogon1'')) (Str (u ''ogon2'')) = Inl ValueError
   \<and> is_identical_collocation_q sample_env [TW w_ogon1] [TW w_ogon2] = Inr False"
proof -
  have m1: "get_main_word [TW w_ogon1] = Inr (u ''ogon1'')"
    by (simp add: get_main_word_def w_ogon1_def)
  have m2: "get_main_word [TW w_ogon2] = Inr (u ''ogon2'')"
    by (simp add: get_main_word_def w_ogon2_def)
  have ne: "[TW w_ogon1] \<noteq> [TW w_ogon2]"
    by (simp add: w_ogon1_def w_ogon2_def u_def)
  have ve: "is_identical_word sample_env (Str (u ''ogon1'')) (Str (u ''ogon2'')) = Inl ValueError"
    by (simp add: is_identical_word_def sample_env_def u_def sp_def is_letter_def)
  show ?thesis
    using is_identical_collocation_q_checks [where ca = "[]" and cb = "[TW w_ogon]" and env = sample_env]
      is_identical_collocation_q_checks
        [where ca = "[TW w_ogon1]" and cb = "[TW w_ogon2]" and ma = "u ''ogon1''"
           and mb = "u ''ogon2''" and env = sample_env]
      m1 m2 ne ve
    by simp
qed

theorem is_identical_collocation_q_single_counterexample:
  "is_identical_collocation_q sample_env [TW w_ogon] [TW w_ogon] = Inr True
   \<and> is_identical_collocation sample_env (u ''ogon'') (u ''ogon'') = Inl ValueError"
  by (simp add: is_identical_collocation_q_def is_identical_collocation_def split_def u_def
      is_space_def get_main_word_def head_comparison_def is_identical_word_def sample_env_def
      w_ogon_def w_ognya_def sp_def is_letter_def Let_def tag_collocation_def tag_step_def
      first_item_def)

section \<open>Properties of in_collocation_list_var\<close>

text \<open>
  Claim C7, as the code has it. An empty candidate list gives the result "not found"
  (false with a null matched string) whatever the query is, since the list is tested
  before the tokens are. With a non-empty candidate list, a token of the query or of a
  candidate that \<open>is_correct_word\<close> rejects gives a value error.
\<close>

theorem in_collocation_list_var_validation:
  "(cl = [] \<longrightarrow> in_collocation_list_var env q cl = Inr ((False, None), []))
   \<and> (cl \<noteq> [] \<and> ((\<exists>w \<in> set (split q). \<not> is_correct_word env w)
                  \<or> (\<exists>c \<in> set cl. \<exists>w \<in> set (split c). \<not> is_correct_word env w))
      \<longrightarrow> in_collocation_list_var env q cl = Inl ValueError)"
  by (auto simp add: in_collocation_list_var_def Let_def image_iff)

theorem in_collocation_list_var_validation_witness:
  "in_collocation_list_var sample_env (u ''ogon artillerii'') [] = Inr ((False, None), [])
   \<and> in_collocation_list_var sample_env (u ''ogon artillerii'') [u ''ognya 6'']
     = Inl ValueError"
proof -
  have s: "split (u ''ognya 6'') = [u ''ognya'', u ''6'']"
    by (simp add: split_def u_def is_space_def)
  have b: "\<not> is_correct_word sample_env (u ''6'')"
    by (simp add: sample_env_def u_def is_letter_def)
  show ?thesis
    using in_collocation_list_var_validation
        [where cl = "[]" and env = sample_env and q = "u ''ogon artillerii''"]
      in_collocation_list_var_validation
        [where cl = "[u ''ognya 6'']" and env = sample_env and q = "u ''ogon artillerii''"]
      s b
    by simp
qed

theorem in_collocation_list_var_empty_counterexample:
  "u ''6'' \<in> set (split (u ''ogon 6'')) \<and> \<not> is_correct_word sample_env (u ''6'')
   \<and> in_collocation_list_var sample_env (u ''ogon 6'') [] = Inr ((False, None), [])"
  by (simp add: in_collocation_list_var_def split_def u_def is_space_def sample_env_def
      is_letter_def)

section \<open>Properties of get_collocation_normal_form\<close>

lemma replace_yo_idem: "replace_yo (replace_yo s) = replace_yo s"
  by (induction s) (simp_all add: replace_yo_def yo_def ye_def)

lemma replace_yo_coll_idem: "map replace_yo_coll (map replace_yo_coll cs) = map replace_yo_coll cs"
  by (induction cs) (simp_all add: replace_yo_coll_def replace_yo_idem)

text \<open>
  Claim C3, as the code has it. The test for the letter U+0451 reads the lower-cased
  pseudo-normal form only. When it succeeds, the letter is replaced in the head word, in
  the pseudo-normal form and in every candidate before any distance is computed, so the
  result (the selected index and the candidates as the call leaves them) is the result
  for the inputs spelled with U+0435, and the candidates are left with the letter replaced.
\<close>

theorem get_collocation_normal_form_yo_invariant:
  assumes "yo \<in> set (lower env pn)"
  shows "get_collocation_normal_form env pn cs mw
       = get_collocation_normal_form env (replace_yo pn) (map replace_yo_coll cs) (replace_yo mw)
     \<and> snd (get_collocation_normal_form env pn cs mw) = map replace_yo_coll cs"
  using assms
  by (simp add: get_collocation_normal_form_def Let_def replace_yo_idem replace_yo_coll_idem
      del: map_map)

theorem get_collocation_normal_form_yo_invariant_witness:
  "yo \<in> set (lower sample_env yolka)
   \<and> get_collocation_normal_form sample_env yolka [mk_coll (u ''palka'') 1, mk_coll yolka 1] yolka
     = (1, [mk_coll (u ''palka'') 1, mk_coll elka 1])
   \<and> get_collocation_normal_form sample_env elka [mk_coll (u ''palka'') 1, mk_coll elka 1] elka
     = (1, [mk_coll (u ''palka'') 1, mk_coll elka 1])"
proof -
  have y: "yo \<in> set (lower sample_env yolka)"
    by (simp add: sample_env_def yolka_def yo_def)
  have r: "replace_yo yolka = elka"
    "map replace_yo_coll [mk_coll (u ''palka'') 1, mk_coll yolka 1]
      = [mk_coll (u ''palka'') 1, mk_coll elka 1]"
    by (simp_all add: replace_yo_def replace_yo_coll_def mk_coll_def yolka_def elka_def yo_def
        ye_def u_def)
  have e: "get_collocation_normal_form sample_env elka [mk_coll (u ''palka'') 1, mk_coll elka 1] elka
     = (1, [mk_coll (u ''palka'') 1, mk_coll elka 1])"
    by (simp add: get_collocation_normal_form_def select_index_def sample_env_def elka_def
        yo_def mk_coll_def u_def Let_def DIST_THRESHOLD_def contains_def str_find_def)
  show ?thesis
    using get_collocation_normal_form_yo_invariant [OF y, of "[mk_coll (u ''palka'') 1, mk_coll yolka 1]" yolka]
      y e
    unfolding r by simp
qed

theorem get_collocation_normal_form_head_yo_counterexample:
  "yo \<in> set yolka
   \<and> fst (get_collocation_normal_form sample_env elka [mk_coll elka 1] yolka) = - 1
   \<and> fst (get_collocation_normal_form sample_env (replace_yo elka)
            (map replace_yo_coll [mk_coll elka 1]) (replace_yo yolka)) = 0"
  by (simp add: get_collocation_normal_form_def select_index_def sample_env_def elka_def yolka_def
      yo_def ye_def mk_coll_def Let_def DIST_THRESHOLD_def contains_def str_find_def
      replace_yo_def replace_yo_coll_def)

section \<open>Properties of assign_tags\<close>

text \<open>
  \<open>split(' ')\<close> and \<open>' '.join\<close> are inverse to each other: a string is the join of its
  words, and the words of a join of space-free words are these words.
\<close>

lemma split_on_acc_plain: "d \<notin> set w \<Longrightarrow> split_on_acc d cur w = [cur @ w]"
  by (induction w arbitrary: cur) auto

lemma split_on_acc_sep:
  "d \<notin> set w \<Longrightarrow> split_on_acc d cur (w @ d # rest) = (cur @ w) # split_on_acc d [] rest"
  by (induction w arbitrary: cur) auto

lemma split_on_join:
  "ws \<noteq> [] \<Longrightarrow> \<forall>w \<in> set ws. sp \<notin> set w \<Longrightarrow> split_on sp (join ws) = ws"
proof (induction ws rule: join.induct)
  case 1
  then show ?case by simp
next
  case (2 w)
  then show ?case by (simp add: split_on_def split_on_acc_plain)
next
  case (3 w v ws)
  then have "split_on sp (join (v # ws)) = v # ws"
    by simp
  moreover from "3.prems" have "sp \<notin> set w"
    by simp
  ultimately show ?case
    by (simp add: split_on_def split_on_acc_sep)
qed

lemma split_on_acc_nonempty: "split_on_acc d cur s \<noteq> []"
  by (induction s arbitrary: cur) auto

lemma join_Cons: "rest \<noteq> [] \<Longrightarrow> join (w # rest) = w @ [sp] @ join rest"
  by (cases rest) simp_all

lemma join_split_on_acc: "join (split_on_acc sp cur s) = cur @ s"
  by (induction s arbitrary: cur) (simp_all add: join_Cons split_on_acc_nonempty)

lemma split_on_acc_words:
  "sp \<notin> set cur \<Longrightarrow> w \<in> set (split_on_acc sp cur s) \<Longrightarrow> sp \<notin> set w"
proof (induction s arbitrary: cur)
  case Nil
  then show ?case by simp
next
  case (Cons a s)
  show ?case
  proof (cases "a = sp")
    case True
    with Cons.prems have "w = cur \<or> w \<in> set (split_on_acc sp [] s)"
      by simp
    then show ?thesis
      using Cons.prems(1) Cons.IH [of "[]"] by auto
  next
    case False
    with Cons.prems have "w \<in> set (split_on_acc sp (cur @ [a]) s)"
      by simp
    moreover from False Cons.prems(1) have "sp \<notin> set (cur @ [a])"
      by simp
    ultimately show ?thesis
      by (rule Cons.IH [rotated])
  qed
qed

text \<open>
  Claim C10. \<open>assign_tags\<close> returns a subsequence of the dictionary, so its entries come in
  dictionary order. For a phrase, given as a string or as the text of a \<open>Collocation\<close>, that
  is the space-separated sequence of the words \<open>ws\<close>, the result holds exactly the entries
  whose surface word is one of \<open>ws\<close>; every string is such a sequence. Words without an
  entry are left out, so the result can differ from the phrase in length and in word
  order: the phrase of three words below gets two entries, in the opposite order.
\<close>

theorem assign_tags_dictionary_order:
  "subseq (assign_tags p d) d
   \<and> (ws \<noteq> [] \<and> (\<forall>w \<in> set ws. sp \<notin> set w) \<longrightarrow>
        assign_tags (PStr (join ws)) d = filter (\<lambda>e. word e \<in> set ws) d
        \<and> (collocation c = join ws \<longrightarrow>
             assign_tags (PColl c) d = filter (\<lambda>e. word e \<in> set ws) d))
   \<and> (\<exists>vs. vs \<noteq> [] \<and> (\<forall>w \<in> set vs. sp \<notin> set w) \<and> s = join vs)
   \<and> map word (assign_tags (PStr (u ''ogon bolshoj artillerii'')) [w_art, w_ogon])
       = [u ''artillerii'', u ''ogon'']
   \<and> map word (assign_tags (PColl (mk_coll (u ''ogon bolshoj artillerii'') 3)) [w_art, w_ogon])
       = [u ''artillerii'', u ''ogon'']"
proof -
  have a: "subseq (assign_tags p d) d"
    by (simp add: assign_tags_def)
  have b: "ws \<noteq> [] \<and> (\<forall>w \<in> set ws. sp \<notin> set w) \<longrightarrow>
        assign_tags (PStr (join ws)) d = filter (\<lambda>e. word e \<in> set ws) d
        \<and> (collocation c = join ws \<longrightarrow>
             assign_tags (PColl c) d = filter (\<lambda>e. word e \<in> set ws) d)"
    by (simp add: assign_tags_def raw_words_of_def split_on_join)
  have "split_on sp s \<noteq> []" "\<forall>w \<in> set (split_on sp s). sp \<notin> set w" "s = join (split_on sp s)"
    using split_on_acc_words [of "[]" _ s]
    by (simp_all add: split_on_def split_on_acc_nonempty join_split_on_acc)
  then have c: "\<exists>vs. vs \<noteq> [] \<and> (\<forall>w \<in> set vs. sp \<notin> set w) \<and> s = join vs"
    by blast
  have e: "map word (assign_tags (PStr (u ''ogon bolshoj artillerii'')) [w_art, w_ogon])
       = [u ''artillerii'', u ''ogon'']"
    "map word (assign_tags (PColl (mk_coll (u ''ogon bolshoj artillerii'') 3)) [w_art, w_ogon])
       = [u ''artillerii'', u ''ogon'']"
    by (simp_all add: assign_tags_def raw_words_of_def split_on_def mk_coll_def u_def sp_def
        w_art_def w_ogon_def)
  from a b c e show ?thesis by blast
qed

theorem assign_tags_dictionary_order_witness:
  "join [u ''ogon'', u ''bolshoj'', u ''artillerii''] = u ''ogon bolshoj artillerii''
   \<and> map word (assign_tags (PStr (u ''ogon bolshoj artillerii'')) [w_art, w_ogon])
       = [u ''artillerii'', u ''ogon'']
   \<and> map word (assign_tags (PColl (mk_coll (u ''ogon bolshoj artillerii'') 3)) [w_art, w_ogon])
       = [u ''artillerii'', u ''ogon'']"
proof -
  have j: "join [u ''ogon'', u ''bolshoj'', u ''artillerii''] = u ''ogon bolshoj artillerii''"
    by (simp add: u_def sp_def)
  have h: "[u ''ogon'', u ''bolshoj'', u ''artillerii''] \<noteq> []
      \<and> (\<forall>w \<in> set [u ''ogon'', u ''bolshoj'', u ''artillerii'']. sp \<notin> set w)"
    by (simp add: u_def sp_def)
  have k: "collocation (mk_coll (u ''ogon bolshoj artillerii'') 3)
      = join [u ''ogon'', u ''bolshoj'', u ''artillerii'']"
    unfolding j by (simp add: mk_coll_def)
  have f: "map word (filter (\<lambda>e. word e \<in> set [u ''ogon'', u ''bolshoj'', u ''artillerii''])
      [w_art, w_ogon]) = [u ''artillerii'', u ''ogon'']"
    by (simp add: w_art_def w_ogon_def u_def)
  from assign_tags_dictionary_order
    [where ws = "[u ''ogon'', u ''bolshoj'', u ''artillerii'']" and d = "[w_art, w_ogon]"
       and c = "mk_coll (u ''ogon bolshoj artillerii'') 3"] h k
  have "assign_tags (PStr (join [u ''ogon'', u ''bolshoj'', u ''artillerii''])) [w_art, w_ogon]
        = filter (\<lambda>e. word e \<in> set [u ''ogon'', u ''bolshoj'', u ''artillerii'']) [w_art, w_ogon]"
    and "assign_tags (PColl (mk_coll (u ''ogon bolshoj artillerii'') 3)) [w_art, w_ogon]
        = filter (\<lambda>e. word e \<in> set [u ''ogon'', u ''bolshoj'', u ''artillerii'']) [w_art, w_ogon]"
    by blast+
  with j f show ?thesis by simp
qed

section \<open>Properties of get_longer_terms\<close>

lemma gram_loop_filter:
  "gram_loop env line dictionary grams acc =
     acc @ filter (\<lambda>gram. case id_check env line dictionary gram of
                            Inl e \<Rightarrow> False
                          | Inr checks \<Rightarrow> True \<in> set checks) grams"
  by (induction grams arbitrary: acc) (simp_all split: sum.splits)

lemma map_err_map: "map_err f (map h xs) = map_err (\<lambda>x. f (h x)) xs"
  by (induction xs) (simp_all split: sum.splits)

lemma map_err_Inl: "map_err f xs = Inl e \<Longrightarrow> \<exists>x \<in> set xs. \<exists>e'. f x = Inl e'"
  by (induction xs) (auto split: sum.splits)

lemma map_err_Inr: "map_err f xs = Inr ys \<Longrightarrow> \<forall>x \<in> set xs. \<exists>b. f x = Inr b"
  by (induction xs arbitrary: ys) (auto split: sum.splits)

lemma map_err_some_true:
  "(case map_err f xs of Inl e \<Rightarrow> False | Inr ys \<Rightarrow> True \<in> set ys) =
     ((\<forall>x \<in> set xs. \<exists>b. f x = Inr b) \<and> (\<exists>x \<in> set xs. f x = Inr True))"
proof (induction xs)
  case Nil
  show ?case by simp
next
  case (Cons x xs)
  show ?case
  proof (cases "f x")
    case (Inl e)
    then show ?thesis by simp
  next
    case (Inr b)
    note fx = this
    show ?thesis
    proof (cases "map_err f xs")
      case (Inl e)
      from map_err_Inl [OF Inl] obtain z e' where z: "z \<in> set xs" "f z = Inl e'"
        by blast
      then have "\<not> (\<exists>b. f z = Inr b)"
        by simp
      with z(1) have "\<not> (\<forall>x \<in> set xs. \<exists>b. f x = Inr b)"
        by blast
      with Inl fx show ?thesis by auto
    next
      case (Inr ys)
      with Cons.IH have "(True \<in> set ys) =
          ((\<forall>x \<in> set xs. \<exists>b. f x = Inr b) \<and> (\<exists>x \<in> set xs. f x = Inr True))"
        by simp
      moreover from map_err_Inr [OF Inr] have "\<forall>x \<in> set xs. \<exists>b. f x = Inr b" .
      ultimately have "(True \<in> set ys) = (\<exists>x \<in> set xs. f x = Inr True)"
        by simp
      with Inr fx \<open>\<forall>x \<in> set xs. \<exists>b. f x = Inr b\<close> show ?thesis
        by (cases b) auto
    qed
  qed
qed

text \<open>
  Claim C6, as the code has it. The loop over the longer candidates never aborts. Its
  result holds, in input order, exactly the candidates for which every comparison of the
  line with a sub-phrase of the line's word count returns a truth value and at least one
  of them returns "identical". So a single comparison that raises drops the candidate as
  a whole, also when another of its sub-phrases is identical to the line, and the
  candidates after it are still processed.
\<close>

theorem get_longer_terms_skips_failing_gram:
  "get_longer_terms env line longer_grams dictionary =
     filter (\<lambda>gram.
        (\<forall>s \<in> set (filter (\<lambda>substr. int (length (split_on sp substr)) = wordcount line)
                      (make_substrs (collocation gram))).
           \<exists>b. is_identical_collocation_q env
                  (map TW (assign_tags (PColl line) dictionary))
                  (map TW (assign_tags (PStr s) dictionary)) = Inr b)
        \<and> (\<exists>s \<in> set (filter (\<lambda>substr. int (length (split_on sp substr)) = wordcount line)
                        (make_substrs (collocation gram))).
             is_identical_collocation_q env
               (map TW (assign_tags (PColl line) dictionary))
               (map TW (assign_tags (PStr s) dictionary)) = Inr True))
       longer_grams"
  unfolding get_longer_terms_def gram_loop_filter id_check_def Let_def map_err_map
    map_err_some_true
  by simp

theorem get_longer_terms_skips_failing_gram_witness:
  "get_longer_terms sample_env (mk_coll (u ''ogon artillerii'') 2)
     [mk_coll (u ''vyzov ogon artillerii'') 3, mk_coll (u ''x y ogon artillerii'') 4,
      mk_coll (u ''vyzov ogon'') 2]
     [w_ogon, w_art]
   = [mk_coll (u ''vyzov ogon artillerii'') 3]"
proof -
  have m4: "make_substrs (u ''x y ogon artillerii'')
      = [u ''x y ogon'', u ''y ogon artillerii'', u ''x y'', u ''y ogon'', u ''ogon artillerii'']"
    by (simp add: make_substrs_def split_def is_space_def Let_def slice_def u_def sp_def)
  have m3: "make_substrs (u ''vyzov ogon artillerii'') = [u ''vyzov ogon'', u ''ogon artillerii'']"
    by (simp add: make_substrs_def split_def is_space_def Let_def slice_def u_def sp_def)
  have m2: "make_substrs (u ''vyzov ogon'') = []"
    by (simp add: make_substrs_def split_def is_space_def Let_def slice_def u_def sp_def)
  have t: "assign_tags (PColl (mk_coll (u ''ogon artillerii'') 2)) [w_ogon, w_art] = [w_ogon, w_art]"
    "assign_tags (PStr (u ''ogon artillerii'')) [w_ogon, w_art] = [w_ogon, w_art]"
    "assign_tags (PStr (u ''x y'')) [w_ogon, w_art] = []"
    "assign_tags (PStr (u ''y ogon'')) [w_ogon, w_art] = [w_ogon]"
    "assign_tags (PStr (u ''vyzov ogon'')) [w_ogon, w_art] = [w_ogon]"
    by (simp_all add: assign_tags_def raw_words_of_def split_on_def mk_coll_def u_def sp_def
        w_ogon_def w_art_def)
  have n: "map (\<lambda>s. length (split_on sp s))
      [u ''x y ogon'', u ''y ogon artillerii'', u ''x y'', u ''y ogon'', u ''ogon artillerii'',
       u ''vyzov ogon''] = [3, 3, 2, 2, 2, 2]"
    by (simp add: split_on_def u_def sp_def)
  have q: "is_identical_collocation_q sample_env [TW w_ogon, TW w_art] [] = Inl ValueError"
    "is_identical_collocation_q sample_env [TW w_ogon, TW w_art] [TW w_ogon, TW w_art] = Inr True"
    "is_identical_collocation_q sample_env [TW w_ogon, TW w_art] [TW w_ogon] = Inr False"
    by (simp_all add: is_identical_collocation_q_def)
  have w: "wordcount (mk_coll s k) = k" "collocation (mk_coll s k) = s" for s k
    by (simp_all add: mk_coll_def)
  show ?thesis
    using n q
    by (simp add: get_longer_terms_skips_failing_gram
        [of sample_env "mk_coll (u ''ogon artillerii'') 2" _ "[w_ogon, w_art]"] t w m4 m3 m2
        del: set_filter) blast
qed

theorem get_longer_terms_bad_substring_counterexample:
  "u ''ogon artillerii'' \<in> set (make_substrs (collocation (mk_coll (u ''x y ogon artillerii'') 4)))
   \<and> is_identical_collocation_q sample_env
         (map TW (assign_tags (PColl (mk_coll (u ''ogon artillerii'') 2)) [w_ogon, w_art]))
         (map TW (assign_tags (PStr (u ''ogon artillerii'')) [w_ogon, w_art])) = Inr True
   \<and> get_longer_terms sample_env (mk_coll (u ''ogon artillerii'') 2)
         [mk_coll (u ''x y ogon artillerii'') 4, mk_coll (u ''vyzov ogon artillerii'') 3]
         [w_ogon, w_art]
       = [mk_coll (u ''vyzov ogon artillerii'') 3]"
proof -
  have m4: "make_substrs (u ''x y ogon artillerii'')
      = [u ''x y ogon'', u ''y ogon artillerii'', u ''x y'', u ''y ogon'', u ''ogon artillerii'']"
    by (simp add: make_substrs_def split_def is_space_def Let_def slice_def u_def sp_def)
  have m3: "make_substrs (u ''vyzov ogon artillerii'') = [u ''vyzov ogon'', u ''ogon artillerii'']"
    by (simp add: make_substrs_def split_def is_space_def Let_def slice_def u_def sp_def)
  have t: "assign_tags (PColl (mk_coll (u ''ogon artillerii'') 2)) [w_ogon, w_art] = [w_ogon, w_art]"
    "assign_tags (PStr (u ''ogon artillerii'')) [w_ogon, w_art] = [w_ogon, w_art]"
    "assign_tags (PStr (u ''x y'')) [w_ogon, w_art] = []"
    "assign_tags (PStr (u ''vyzov ogon'')) [w_ogon, w_art] = [w_ogon]"
    by (simp_all add: assign_tags_def raw_words_of_def split_on_def mk_coll_def u_def sp_def
        w_ogon_def w_art_def)
  have n: "map (\<lambda>s. length (split_on sp s))
      [u ''x y ogon'', u ''y ogon artillerii'', u ''x y'', u ''y ogon'', u ''ogon artillerii'',
       u ''vyzov ogon''] = [3, 3, 2, 2, 2, 2]"
    by (simp add: split_on_def u_def sp_def)
  have q: "is_identical_collocation_q sample_env [TW w_ogon, TW w_art] [] = Inl ValueError"
    "is_identical_collocation_q sample_env [TW w_ogon, TW w_art] [TW w_ogon, TW w_art] = Inr True"
    "is_identical_collocation_q sample_env [TW w_ogon, TW w_art] [TW w_ogon] = Inr False"
    by (simp_all add: is_identical_collocation_q_def)
  have bad: "id_check sample_env (mk_coll (u ''ogon artillerii'') 2) [w_ogon, w_art]
      (mk_coll (u ''x y ogon artillerii'') 4) = Inl ValueError"
    using n t q by (simp add: id_check_def Let_def m4 mk_coll_def)
  have good: "id_check sample_env (mk_coll (u ''ogon artillerii'') 2) [w_ogon, w_art]
      (mk_coll (u ''vyzov ogon artillerii'') 3) = Inr [False, True]"
    using n t q by (simp add: id_check_def Let_def m3 mk_coll_def)
  show ?thesis
    using t q by (simp add: get_longer_terms_def bad good) (simp add: mk_coll_def m4)
qed

end
